theory Spec2Isabelle
  imports Complex_Main
begin

section \<open>Design variable sets: the Cartesian expansion\<close>

text \<open>
  \<^verbatim>\<open>DesignVariableSet.design_var_sets\<close> is a Python dict from variable names to
  value sequences. A dict keeps insertion order and has no duplicate keys, so it is
  an association list in declared order; a parameter record (\<^verbatim>\<open>dict(zip(keys, d))\<close>)
  is an association list in the same key order.
\<close>

type_synonym 'v design_vars = "(string \<times> 'v list) list"
type_synonym 'v param_record = "(string \<times> 'v) list"

text \<open>
  \<^verbatim>\<open>itertools.product(*pools)\<close>, as the standard library documents it:
  \<^verbatim>\<open>result = [[]]; for pool in pools: result = [x + [y] for x in result for y in pool]\<close>.
\<close>

definition product_step :: "'a list list \<Rightarrow> 'a list \<Rightarrow> 'a list list" where
  "product_step result pool = concat (map (\<lambda>x. map (\<lambda>y. x @ [y]) pool) result)"

definition itertools_product :: "'a list list \<Rightarrow> 'a list list" where
  "itertools_product pools = foldl product_step [[]] pools"

text \<open>
  \<^verbatim>\<open>read_design_variable_set\<close>: one record per tuple of the product, each tuple zipped
  with the keys. \<^verbatim>\<open>solve_me\<close>, run by \<^verbatim>\<open>__post_init__\<close>, stores the result in
  \<^verbatim>\<open>param_list\<close>.
\<close>

definition read_design_variable_set :: "'v design_vars \<Rightarrow> 'v param_record list" where
  "read_design_variable_set data =
     (let keys = map fst data;
          design_var_cross_product = itertools_product (map snd data)
      in map (\<lambda>d. zip keys d) design_var_cross_product)"

definition solve_me :: "'v design_vars \<Rightarrow> 'v param_record list" where
  "solve_me data = read_design_variable_set data"

text \<open>
  Vocabulary for stating the order of the expansion. A choice is one position per
  variable, in declared order; its odometer rank counts the choices before it when the
  last variable cycles fastest, and \<open>odometer_digits\<close> reads a rank back into a choice.
\<close>

definition var_sizes :: "'v design_vars \<Rightarrow> nat list" where
  "var_sizes data = map (\<lambda>kv. length (snd kv)) data"

definition valid_choice :: "nat list \<Rightarrow> nat list \<Rightarrow> bool" where
  "valid_choice sizes idx = list_all2 (\<lambda>i n. i < n) idx sizes"

fun odometer_rank :: "nat list \<Rightarrow> nat list \<Rightarrow> nat" where
  "odometer_rank (n # ns) (i # js) = i * prod_list ns + odometer_rank ns js"
| "odometer_rank _ _ = 0"

fun odometer_digits :: "nat list \<Rightarrow> nat \<Rightarrow> nat list" where
  "odometer_digits [] p = []"
| "odometer_digits (n # ns) p = (p div prod_list ns) # odometer_digits ns (p mod prod_list ns)"

definition pick_record :: "'v design_vars \<Rightarrow> nat list \<Rightarrow> 'v param_record" where
  "pick_record data idx = map (\<lambda>(kv, i). (fst kv, snd kv ! i)) (zip data idx)"

section \<open>Table cells and Python values\<close>

text \<open>
  The values a table cell holds: a Python \<^verbatim>\<open>str\<close>, a finite number, or the float
  \<^verbatim>\<open>nan\<close> (pandas' missing marker, \<^verbatim>\<open>np.nan\<close>). Numbers are exact rationals: the model
  does not follow the rounding of IEEE doubles, nor the infinities.
\<close>

datatype cell = Str string | Num rat | NaN

datatype py_error = ValueError | TypeError | KeyError | IndexError | ZeroDivisionError

text \<open>A Python loop body that may raise: the first exception ends the loop.\<close>

definition try_bind :: "'e + 'a \<Rightarrow> ('a \<Rightarrow> 'e + 'b) \<Rightarrow> 'e + 'b" where
  "try_bind m f = (case m of Inl e \<Rightarrow> Inl e | Inr x \<Rightarrow> f x)"

fun sequence_results :: "('e + 'a) list \<Rightarrow> 'e + 'a list" where
  "sequence_results [] = Inr []"
| "sequence_results (r # rs) =
     (case r of
        Inl e \<Rightarrow> Inl e
      | Inr x \<Rightarrow> (case sequence_results rs of Inl e \<Rightarrow> Inl e | Inr xs \<Rightarrow> Inr (x # xs)))"

text \<open>\<^verbatim>\<open>type(x) is str\<close>.\<close>

fun is_str :: "cell \<Rightarrow> bool" where
  "is_str (Str s) = True"
| "is_str _ = False"

text \<open>
  Python's \<^verbatim>\<open>==\<close> on scalars: strings and numbers are never equal to each other, and
  \<^verbatim>\<open>nan\<close> is equal to nothing, itself included.
\<close>

fun py_eq :: "cell \<Rightarrow> cell \<Rightarrow> bool" where
  "py_eq (Str a) (Str b) = (a = b)"
| "py_eq (Num a) (Num b) = (a = b)"
| "py_eq _ _ = False"

text \<open>
  \<^verbatim>\<open>float(x)\<close>. On a string Python parses a numeric literal or raises ValueError; the
  parser is the parameter \<open>float_of_str\<close>.
\<close>

fun py_float :: "(string \<Rightarrow> cell option) \<Rightarrow> cell \<Rightarrow> py_error + cell" where
  "py_float float_of_str (Str s) =
     (case float_of_str s of None \<Rightarrow> Inl ValueError | Some x \<Rightarrow> Inr x)"
| "py_float float_of_str x = Inr x"

fun py_sub :: "cell \<Rightarrow> cell \<Rightarrow> py_error + cell" where
  "py_sub (Str a) _ = Inl TypeError"
| "py_sub _ (Str b) = Inl TypeError"
| "py_sub (Num a) (Num b) = Inr (Num (a - b))"
| "py_sub _ _ = Inr NaN"

fun py_mul :: "cell \<Rightarrow> cell \<Rightarrow> py_error + cell" where
  "py_mul (Str a) _ = Inl TypeError"
| "py_mul _ (Str b) = Inl TypeError"
| "py_mul (Num a) (Num b) = Inr (Num (a * b))"
| "py_mul _ _ = Inr NaN"

fun py_truediv :: "cell \<Rightarrow> cell \<Rightarrow> py_error + cell" where
  "py_truediv (Str a) _ = Inl TypeError"
| "py_truediv _ (Str b) = Inl TypeError"
| "py_truediv (Num a) (Num b) = (if b = 0 then Inl ZeroDivisionError else Inr (Num (a / b)))"
| "py_truediv NaN (Num b) = (if b = 0 then Inl ZeroDivisionError else Inr NaN)"
| "py_truediv _ NaN = Inr NaN"

text \<open>\<^verbatim>\<open>round(x, n)\<close>: to the nearest multiple of \<open>10\<^sup>-\<^sup>n\<close>, ties to the even one.\<close>

definition round_half_even :: "rat \<Rightarrow> int" where
  "round_half_even x =
     (let f = \<lfloor>x\<rfloor>; d = x - of_int f
      in if d < 1 / 2 then f else if 1 / 2 < d then f + 1 else if even f then f else f + 1)"

definition round_ndigits :: "rat \<Rightarrow> nat \<Rightarrow> rat" where
  "round_ndigits x n = of_int (round_half_even (x * 10 ^ n)) / 10 ^ n"

fun py_round :: "cell \<Rightarrow> nat \<Rightarrow> py_error + cell" where
  "py_round (Str s) n = Inl TypeError"
| "py_round (Num x) n = Inr (Num (round_ndigits x n))"
| "py_round NaN n = Inr NaN"

section \<open>The per-cell error metric\<close>

text \<open>
  \<^verbatim>\<open>VerifiedObjectLibrary.error_calc(generated_value, verify_value, c, param)\<close>; the
  arguments \<^verbatim>\<open>c\<close> and \<^verbatim>\<open>param\<close> are unused.
\<close>

definition error_calc :: "(string \<Rightarrow> cell option) \<Rightarrow> cell \<Rightarrow> cell \<Rightarrow> py_error + cell" where
  "error_calc float_of_str generated_value verify_value =
     (if is_str generated_value then
        Inr (Str (if py_eq generated_value verify_value then ''match'' else ''not match''))
      else if py_eq verify_value (Num 0) then
        (if py_eq verify_value generated_value then Inr (Num 0)
         else try_bind (py_truediv generated_value generated_value) (\<lambda>q. py_mul q (Num 100)))
      else
        try_bind (py_float float_of_str generated_value) (\<lambda>g.
        try_bind (py_float float_of_str verify_value) (\<lambda>v.
        try_bind (py_sub g v) (\<lambda>d.
        try_bind (py_truediv d v) (\<lambda>q.
        try_bind (py_mul q (Num 100)) (\<lambda>result.
        py_round result 3))))))"

section \<open>Tables\<close>

text \<open>
  A pandas DataFrame with the default positional row labels: the column names in
  order, and the rows as lists of cells in column order. Frames are rectangular; a
  lookup by column name takes the first column of that name, and reads \<^verbatim>\<open>nan\<close> where a
  row is too short to have the cell, so that the lookup is total.
\<close>

record dataframe =
  columns :: "string list"
  rows :: "cell list list"

definition col_pos :: "string list \<Rightarrow> string \<Rightarrow> nat" where
  "col_pos cols name = length (takeWhile (\<lambda>c. c \<noteq> name) cols)"

definition cell_at :: "string list \<Rightarrow> cell list \<Rightarrow> string \<Rightarrow> cell" where
  "cell_at cols row name =
     (let j = col_pos cols name in if j < length row then row ! j else NaN)"

text \<open>\<^verbatim>\<open>df[name]\<close>: the values of one column, top to bottom.\<close>

definition column_values :: "dataframe \<Rightarrow> string \<Rightarrow> cell list" where
  "column_values df name = map (\<lambda>row. cell_at (columns df) row name) (rows df)"

text \<open>\<^verbatim>\<open>series.dropna()\<close>.\<close>

definition dropna :: "cell list \<Rightarrow> cell list" where
  "dropna xs = filter (\<lambda>c. c \<noteq> NaN) xs"

text \<open>
  \<^verbatim>\<open>df.set_index(k)\<close>: the frame with column \<^verbatim>\<open>k\<close> as its row labels. The model keeps
  the frame and the name of the label column; the data columns are the others, and
  cells are still read by column name. An unknown \<^verbatim>\<open>k\<close> raises KeyError.
\<close>

record indexed_frame =
  index_name :: string
  source :: dataframe

definition index_keys :: "indexed_frame \<Rightarrow> cell list" where
  "index_keys fr = column_values (source fr) (index_name fr)"

definition data_columns :: "indexed_frame \<Rightarrow> string list" where
  "data_columns fr = remove1 (index_name fr) (columns (source fr))"

definition set_index :: "dataframe \<Rightarrow> string \<Rightarrow> py_error + indexed_frame" where
  "set_index df k =
     (if k \<in> set (columns df) then Inr \<lparr>index_name = k, source = df\<rparr> else Inl KeyError)"

text \<open>
  \<^verbatim>\<open>fr.loc[i, param]\<close>: the cells of column \<^verbatim>\<open>param\<close> in the rows labelled \<^verbatim>\<open>i\<close>. One
  row gives a scalar; several rows (a duplicated label) give a Series.
\<close>

definition loc_values :: "indexed_frame \<Rightarrow> cell \<Rightarrow> string \<Rightarrow> cell list" where
  "loc_values fr i param =
     map (\<lambda>row. cell_at (columns (source fr)) row param)
       (filter (\<lambda>row. cell_at (columns (source fr)) row (index_name fr) = i) (rows (source fr)))"

section \<open>The verification engine\<close>

text \<open>
  The guard of \<^verbatim>\<open>check_error\<close>:
  \<^verbatim>\<open>verify_value == np.nan or generated_value == np.nan\<close>.
\<close>

definition nan_guard :: "cell \<Rightarrow> cell \<Rightarrow> bool" where
  "nan_guard verify_value generated_value =
     (py_eq verify_value NaN \<or> py_eq generated_value NaN)"

text \<open>
  The body of the inner loop of \<^verbatim>\<open>check_error\<close> for a label and a column that the
  reference frame both has. When either lookup gives a Series, the comparison with
  \<^verbatim>\<open>np.nan\<close> is a Series and its truth value raises ValueError.
\<close>

definition check_cell ::
  "(string \<Rightarrow> cell option) \<Rightarrow> indexed_frame \<Rightarrow> indexed_frame \<Rightarrow> cell \<Rightarrow> string \<Rightarrow> py_error + cell"
where
  "check_cell float_of_str lib_df verify_df i param =
     (case loc_values verify_df i param of
        [] \<Rightarrow> Inl KeyError
      | [verify_value] \<Rightarrow>
          (case loc_values lib_df i param of
             [] \<Rightarrow> Inl KeyError
           | [generated_value] \<Rightarrow>
               (if nan_guard verify_value generated_value then Inr NaN
                else error_calc float_of_str generated_value verify_value)
           | _ \<Rightarrow> Inl ValueError)
      | _ \<Rightarrow> Inl ValueError)"

text \<open>One iteration of \<^verbatim>\<open>for i, c in error_df.iterrows()\<close>: the cells written into row \<^verbatim>\<open>c\<close>.
  The writes reach \<^verbatim>\<open>error_df\<close>, as the code relies on.\<close>

definition check_row ::
  "(string \<Rightarrow> cell option) \<Rightarrow> indexed_frame \<Rightarrow> indexed_frame \<Rightarrow> cell \<Rightarrow> py_error + cell list"
where
  "check_row float_of_str lib_df verify_df i =
     (if i \<in> set (index_keys verify_df) then
        sequence_results
          (map (\<lambda>param.
                  if param \<in> set (data_columns verify_df)
                  then check_cell float_of_str lib_df verify_df i param
                  else Inr NaN)
             (data_columns lib_df))
      else Inr (map (\<lambda>param. NaN) (data_columns lib_df)))"

text \<open>\<^verbatim>\<open>error_df.reset_index()\<close>: the labels come back as the first column.\<close>

definition reset_index :: "string \<Rightarrow> string list \<Rightarrow> cell list \<Rightarrow> cell list list \<Rightarrow> dataframe" where
  "reset_index k cols keys cells =
     \<lparr>columns = k # cols, rows = map (\<lambda>(i, cs). i # cs) (zip keys cells)\<rparr>"

definition check_error ::
  "(string \<Rightarrow> cell option) \<Rightarrow> dataframe \<Rightarrow> dataframe \<Rightarrow> string \<Rightarrow> py_error + dataframe"
where
  "check_error float_of_str object_library verification_library lookup_index =
     try_bind (set_index object_library lookup_index) (\<lambda>lib_df.
     try_bind (set_index verification_library lookup_index) (\<lambda>verify_df.
     try_bind (sequence_results
                 (map (check_row float_of_str lib_df verify_df) (index_keys lib_df))) (\<lambda>cells.
     Inr (reset_index lookup_index (data_columns lib_df) (index_keys lib_df) cells))))"

text \<open>
  One row of the report frame; the fields are the columns \<^verbatim>\<open>"checked or not?"\<close>,
  \<^verbatim>\<open>"coverage"\<close>, \<^verbatim>\<open>"max error"\<close>, \<^verbatim>\<open>"avg error"\<close>, \<^verbatim>\<open>"avg abs error"\<close>, \<^verbatim>\<open>"min error"\<close> and
  \<^verbatim>\<open>"str error"\<close>.
\<close>

record report_row =
  checked :: string
  coverage :: cell
  max_error :: cell
  avg_error :: cell
  avg_abs_error :: cell
  min_error :: cell
  str_error :: cell

fun num_of :: "cell \<Rightarrow> rat" where
  "num_of (Num q) = q"
| "num_of _ = 0"

text \<open>\<^verbatim>\<open>type(result_df[param][0]) is str\<close>: the cell in the row labelled 0.\<close>

definition first_cell_is_str :: "dataframe \<Rightarrow> string \<Rightarrow> py_error + bool" where
  "first_cell_is_str result_df param =
     (case column_values result_df param of [] \<Rightarrow> Inl KeyError | c # cs \<Rightarrow> Inr (is_str c))"

text \<open>
  The branch for a column classified as textual. The two counts are numpy integers,
  whose quotient \<open>0 / 0\<close> is \<^verbatim>\<open>nan\<close>.
\<close>

definition report_textual :: "cell \<Rightarrow> cell list \<Rightarrow> report_row" where
  "report_textual cov col =
     (let matched_num = length (filter (\<lambda>c. c = Str ''match'') col);
          not_matched_num = length (filter (\<lambda>c. c = Str ''not match'') col);
          data_error =
            (if matched_num + not_matched_num = 0 then NaN
             else Num ((1 - of_nat matched_num / of_nat (matched_num + not_matched_num)) * 100))
      in \<lparr>checked = ''yes'', coverage = cov, max_error = Str ''N/A'', avg_error = Str ''N/A'',
           avg_abs_error = Str ''N/A'', min_error = Str ''N/A'', str_error = data_error\<rparr>)"

text \<open>
  The branch for a column classified as numeric. \<^verbatim>\<open>max\<close> and \<^verbatim>\<open>sum\<close> over the
  non-missing cells raise TypeError as soon as one of them is a string.
\<close>

definition report_numeric :: "cell \<Rightarrow> cell list \<Rightarrow> py_error + report_row" where
  "report_numeric cov col =
     (let present = dropna col in
      if present = [] then
        Inr \<lparr>checked = ''yes'', coverage = cov, max_error = Str ''N/A'', avg_error = Str ''N/A'',
             avg_abs_error = Str ''N/A'', min_error = Str ''N/A'', str_error = Str ''N/A''\<rparr>
      else if \<exists>c\<in>set present. is_str c then Inl TypeError
      else
        (let xs = map num_of present; n = of_nat (length xs) in
         Inr \<lparr>checked = ''yes'', coverage = cov,
              max_error = Num (foldl max (hd xs) (tl xs)),
              avg_error = Num (sum_list xs / n),
              avg_abs_error = Num (sum_list (map abs xs) / n),
              min_error = Num (foldl min (hd xs) (tl xs)),
              str_error = Str ''N/A''\<rparr>))"

definition not_checked_row :: report_row where
  "not_checked_row =
     \<lparr>checked = ''no'', coverage = NaN, max_error = NaN, avg_error = NaN,
      avg_abs_error = NaN, min_error = NaN, str_error = NaN\<rparr>"

text \<open>The body of \<^verbatim>\<open>for param in report_df.index\<close> in \<^verbatim>\<open>error_report\<close>.\<close>

definition report_param :: "dataframe \<Rightarrow> dataframe \<Rightarrow> dataframe \<Rightarrow> string \<Rightarrow> py_error + report_row" where
  "report_param lib_df verify_df result_df param =
     (if param \<in> set (columns verify_df) then
        (if param \<notin> set (columns result_df) then Inl KeyError
         else
           (let col = column_values result_df param;
                total = length (column_values lib_df param)
            in if total = 0 then Inl ZeroDivisionError
               else
                 (let cov = Num (round_ndigits (of_nat (length (dropna col)) / of_nat total * 100) 2)
                  in try_bind (first_cell_is_str result_df param) (\<lambda>textual.
                       if textual then Inr (report_textual cov col)
                       else report_numeric cov col))))
      else Inr not_checked_row)"

definition error_report :: "dataframe \<Rightarrow> dataframe \<Rightarrow> dataframe \<Rightarrow> py_error + report_row list" where
  "error_report object_library verification_library result_df =
     sequence_results
       (map (report_param object_library verification_library result_df) (columns object_library))"

text \<open>\<^verbatim>\<open>VerifiedObjectLibrary.__post_init__\<close>: the per-cell result, then the report.\<close>

definition verified_object_library ::
  "(string \<Rightarrow> cell option) \<Rightarrow> dataframe \<Rightarrow> dataframe \<Rightarrow> string
     \<Rightarrow> py_error + (dataframe \<times> report_row list)"
where
  "verified_object_library float_of_str object_library verification_library lookup_index =
     try_bind (check_error float_of_str object_library verification_library lookup_index)
       (\<lambda>result_df.
     try_bind (error_report object_library verification_library result_df) (\<lambda>report_df.
     Inr (result_df, report_df)))"


section \<open>Example tables\<close>



text \<open>A generated table whose first key is in the reference, and a reference table
  with no \<^verbatim>\<open>cap\<close> column.\<close>

definition plates_generated :: dataframe where
  "plates_generated =
     \<lparr>columns = [''name'', ''grade'', ''cap''],
      rows = [[Str ''p2'', Str ''S355'', Num 90],
              [Str ''p1'', Str ''S275'', Num 110]]\<rparr>"

definition plates_reference :: dataframe where
  "plates_reference =
     \<lparr>columns = [''name'', ''grade''],
      rows = [[Str ''p2'', Str ''S355'']]\<rparr>"

section \<open>Object sets\<close>

text \<open>
  An instance the reference class produces is read only through \<^verbatim>\<open>hasattr\<close> and
  \<^verbatim>\<open>getattr\<close>: it is the association list of its attributes. The reference class is a
  function from a parameter record to an instance, or to the message of the
  \<^verbatim>\<open>Exception\<close> it raised (\<open>Inl\<close>).
\<close>

type_synonym pyobj = "(string \<times> cell) list"

definition hasattr :: "pyobj \<Rightarrow> string \<Rightarrow> bool" where
  "hasattr p_instance attr_name = (map_of p_instance attr_name \<noteq> None)"

text \<open>
  The fields of \<^verbatim>\<open>ObjectSet\<close>. \<^verbatim>\<open>report_attrs\<close> is the list after \<^verbatim>\<open>__post_init__\<close> has
  replaced \<^verbatim>\<open>None\<close> by the annotated names of the reference class; \<^verbatim>\<open>value_fn\<close> is
  \<^verbatim>\<open>None\<close> or the list of weights.
\<close>

record 'p ObjectSet =
  reference_class :: "'p param_record \<Rightarrow> string + pyobj"
  param_list :: "'p param_record list"
  report_attrs :: "string list"
  value_fn :: "cell list option"
  object_set :: "pyobj list"
  object_library :: dataframe
  skipped_indices :: "nat list"

text \<open>
  The inner loop of \<^verbatim>\<open>generate_object_set\<close>: the values of the report attributes, or
  the ValueError raised at the first attribute the instance lacks.
\<close>

definition read_attrs :: "string list \<Rightarrow> pyobj \<Rightarrow> py_error + cell list" where
  "read_attrs df_columns p_instance =
     sequence_results
       (map (\<lambda>attr_name.
               if hasattr p_instance attr_name
               then (case map_of p_instance attr_name of
                       Some v \<Rightarrow> Inr v | None \<Rightarrow> Inl ValueError)
               else Inl ValueError)
          df_columns)"

text \<open>
  \<^verbatim>\<open>df.loc[len(df)] = attr_value_list\<close>: a new row at the end. pandas raises ValueError
  for a frame with no columns (\<^verbatim>\<open>cannot set a frame with no defined columns\<close>) and for a
  list that is not as long as the columns.
\<close>

definition loc_append :: "dataframe \<Rightarrow> cell list \<Rightarrow> py_error + dataframe" where
  "loc_append df attr_value_list =
     (if columns df = [] then Inl ValueError
      else if length attr_value_list \<noteq> length (columns df) then Inl ValueError
      else Inr (df\<lparr>rows := rows df @ [attr_value_list]\<rparr>))"

text \<open>
  One pass of the body of \<^verbatim>\<open>for i, p in enumerate(self.param_list)\<close>, on the triple
  \<^verbatim>\<open>(obj_set, df, self.skipped_indices)\<close>. Whatever is raised inside \<^verbatim>\<open>try\<close> is caught
  and the index is appended to the skip list; the instance is appended to \<^verbatim>\<open>obj_set\<close>
  as soon as the reference class has returned it.
\<close>

definition try_record ::
  "('p param_record \<Rightarrow> string + pyobj) \<Rightarrow> nat \<Rightarrow> 'p param_record
     \<Rightarrow> pyobj list \<times> dataframe \<times> nat list \<Rightarrow> pyobj list \<times> dataframe \<times> nat list"
where
  "try_record ref_class i p st =
     (case st of (obj_set, df, skipped) \<Rightarrow>
        (case ref_class p of
           Inl e \<Rightarrow> (obj_set, df, skipped @ [i])
         | Inr p_instance \<Rightarrow>
             (case try_bind (read_attrs (columns df) p_instance) (loc_append df) of
                Inl e \<Rightarrow> (obj_set @ [p_instance], df, skipped @ [i])
              | Inr df' \<Rightarrow> (obj_set @ [p_instance], df', skipped))))"

fun generate_loop ::
  "('p param_record \<Rightarrow> string + pyobj) \<Rightarrow> nat \<Rightarrow> 'p param_record list
     \<Rightarrow> pyobj list \<times> dataframe \<times> nat list \<Rightarrow> pyobj list \<times> dataframe \<times> nat list"
where
  "generate_loop ref_class i [] st = st"
| "generate_loop ref_class i (p # ps) st =
     generate_loop ref_class (Suc i) ps (try_record ref_class i p st)"

text \<open>
  \<^verbatim>\<open>df[name] = values\<close> for a list. A frame with no rows first takes its row labels from
  a non-empty list, the cells of the columns it has becoming \<^verbatim>\<open>nan\<close>. A list that is not
  as long as the frame raises ValueError. The values replace every column of that
  name, or become a new last column.
\<close>

definition ensure_valid_index :: "dataframe \<Rightarrow> cell list \<Rightarrow> dataframe" where
  "ensure_valid_index df values =
     (if rows df = [] \<and> values \<noteq> []
      then df\<lparr>rows := map (\<lambda>v. map (\<lambda>c. NaN) (columns df)) values\<rparr>
      else df)"

definition set_column :: "dataframe \<Rightarrow> string \<Rightarrow> cell list \<Rightarrow> py_error + dataframe" where
  "set_column df name values =
     (let df1 = ensure_valid_index df values in
      if length values \<noteq> length (rows df1) then Inl ValueError
      else if name \<in> set (columns df1) then
        Inr (df1\<lparr>rows :=
               map (\<lambda>(row, v). map (\<lambda>(c, x). if c = name then v else x) (zip (columns df1) row))
                 (zip (rows df1) values)\<rparr>)
      else
        Inr \<lparr>columns = columns df1 @ [name],
             rows = map (\<lambda>(row, v). row @ [v]) (zip (rows df1) values)\<rparr>)"

text \<open>
  \<^verbatim>\<open>generate_object_set\<close>: the value left in \<^verbatim>\<open>self.skipped_indices\<close>, and the returned
  pair \<^verbatim>\<open>(obj_set, df)\<close> or the exception that reaches the caller.
\<close>

definition generate_object_set ::
  "'p ObjectSet \<Rightarrow> nat list \<times> (py_error + pyobj list \<times> dataframe)"
where
  "generate_object_set self =
     (case generate_loop (reference_class self) 0 (param_list self)
             ([], \<lparr>columns = report_attrs self, rows = []\<rparr>, [])
      of (obj_set, df, skipped) \<Rightarrow>
        (skipped,
         case value_fn self of
           None \<Rightarrow> Inr (obj_set, df)
         | Some w \<Rightarrow> try_bind (set_column df ''value_fn'' w) (\<lambda>df'. Inr (obj_set, df'))))"

text \<open>
  The assignment \<^verbatim>\<open>self.object_set, self.object_library = self.generate_object_set()\<close>
  of \<^verbatim>\<open>__post_init__\<close> and \<^verbatim>\<open>reduce_design_space\<close>.
\<close>

definition regenerate :: "'p ObjectSet \<Rightarrow> py_error + 'p ObjectSet" where
  "regenerate self =
     (case generate_object_set self of (skipped, outcome) \<Rightarrow>
        try_bind outcome (\<lambda>(obj_set, df).
          Inr (self\<lparr>object_set := obj_set, object_library := df, skipped_indices := skipped\<rparr>)))"

definition new_ObjectSet ::
  "('p param_record \<Rightarrow> string + pyobj) \<Rightarrow> 'p param_record list \<Rightarrow> string list
     \<Rightarrow> cell list option \<Rightarrow> py_error + 'p ObjectSet"
where
  "new_ObjectSet ref_class params attrs weights =
     regenerate \<lparr>reference_class = ref_class, param_list = params, report_attrs = attrs,
                 value_fn = weights, object_set = [],
                 object_library = \<lparr>columns = [], rows = []\<rparr>, skipped_indices = []\<rparr>"

text \<open>
  \<^verbatim>\<open>self.object_library.query(query_string).index\<close>: the labels of the rows the query
  holds for. The query is a predicate on a row, given the column names; the labels of
  the table are the row positions.
\<close>

definition query_index :: "(string list \<Rightarrow> cell list \<Rightarrow> bool) \<Rightarrow> dataframe \<Rightarrow> nat list" where
  "query_index query df =
     filter (\<lambda>j. query (columns df) (rows df ! j)) [0..<length (rows df)]"

text \<open>\<^verbatim>\<open>del xs[index]\<close> for a non-negative index.\<close>

definition py_del :: "'a list \<Rightarrow> nat \<Rightarrow> py_error + 'a list" where
  "py_del xs index =
     (if index < length xs then Inr (take index xs @ drop (Suc index) xs) else Inl IndexError)"

fun delete_loop ::
  "nat list \<Rightarrow> 'a list \<times> cell list option \<Rightarrow> py_error + 'a list \<times> cell list option"
where
  "delete_loop [] st = Inr st"
| "delete_loop (index # rest) (params, weights) =
     try_bind (py_del params index) (\<lambda>params'.
       case weights of
         None \<Rightarrow> delete_loop rest (params', None)
       | Some w \<Rightarrow> try_bind (py_del w index) (\<lambda>w'. delete_loop rest (params', Some w')))"

definition reduce_design_space ::
  "'p ObjectSet \<Rightarrow> (string list \<Rightarrow> cell list \<Rightarrow> bool) \<Rightarrow> py_error + 'p ObjectSet"
where
  "reduce_design_space self query =
     (let remove_me = query_index query (object_library self) in
      try_bind (delete_loop (rev (sort remove_me)) (param_list self, value_fn self))
        (\<lambda>(params, weights). regenerate (self\<lparr>param_list := params, value_fn := weights\<rparr>)))"

text \<open>
  Vocabulary for the skip accounting: a record is skipped when the reference class
  raises on it, or when its instance cannot be turned into a table row (an attribute
  is missing, or the frame has no columns to take a row).
\<close>

definition record_skipped ::
  "('p param_record \<Rightarrow> string + pyobj) \<Rightarrow> string list \<Rightarrow> 'p param_record \<Rightarrow> bool"
where
  "record_skipped ref_class attrs p =
     (case ref_class p of
        Inl e \<Rightarrow> True
      | Inr p_instance \<Rightarrow> attrs = [] \<or> \<not> list_all (hasattr p_instance) attrs)"

section \<open>Example reference classes\<close>

text \<open>
  A beam class with the attributes \<^verbatim>\<open>span\<close> and \<^verbatim>\<open>area\<close>, which raises for a span that
  is not positive; and a class whose instances have a \<^verbatim>\<open>span\<close> and nothing else.
\<close>

definition beam_class :: "cell param_record \<Rightarrow> string + pyobj" where
  "beam_class p =
     (case map_of p ''span'' of
        Some (Num x) \<Rightarrow>
          (if 0 < x then Inr [(''span'', Num x), (''area'', Num (x * x))]
           else Inl ''span must be positive'')
      | _ \<Rightarrow> Inl ''span must be a number'')"

definition bare_class :: "cell param_record \<Rightarrow> string + pyobj" where
  "bare_class p =
     (case map_of p ''span'' of
        Some v \<Rightarrow> Inr [(''span'', v)]
      | None \<Rightarrow> Inl ''missing argument'')"

definition area_is_positive :: "string list \<Rightarrow> cell list \<Rightarrow> bool" where
  "area_is_positive cols row =
     (case cell_at cols row ''area'' of Num a \<Rightarrow> 0 < a | _ \<Rightarrow> False)"

section \<open>Properties of the Cartesian expansion\<close>

lemma product_step_Nil: "product_step [] pool = []"
  by (simp add: product_step_def)

lemma product_step_append:
  "product_step (xs @ ys) pool = product_step xs pool @ product_step ys pool"
  by (simp add: product_step_def)

lemma foldl_product_step_Nil: "foldl product_step [] pools = []"
  by (induction pools) (simp_all add: product_step_Nil)

lemma foldl_product_step_append:
  "foldl product_step (xs @ ys) pools = foldl product_step xs pools @ foldl product_step ys pools"
  by (induction pools arbitrary: xs ys) (simp_all add: product_step_append)

lemma foldl_product_step_concat:
  "foldl product_step (concat xss) pools = concat (map (\<lambda>xs. foldl product_step xs pools) xss)"
  by (induction xss) (simp_all add: foldl_product_step_Nil foldl_product_step_append)

lemma foldl_product_step_single:
  "foldl product_step [x] pools = map (\<lambda>ys. x @ ys) (product_lists pools)"
proof (induction pools arbitrary: x)
  case Nil
  then show ?case by simp
next
  case (Cons p ps)
  have "foldl product_step [x] (p # ps) = foldl product_step (map (\<lambda>y. x @ [y]) p) ps"
    by (simp add: product_step_def)
  also have "map (\<lambda>y. x @ [y]) p = concat (map (\<lambda>y. [x @ [y]]) p)"
    by simp
  also have "foldl product_step \<dots> ps = concat (map (\<lambda>y. foldl product_step [x @ [y]] ps) p)"
    by (simp add: foldl_product_step_concat comp_def del: concat_map_singleton)
  also have "\<dots> = concat (map (\<lambda>y. map (\<lambda>ys. (x @ [y]) @ ys) (product_lists ps)) p)"
    by (simp add: Cons.IH)
  also have "\<dots> = map (\<lambda>ys. x @ ys) (product_lists (p # ps))"
    by (simp add: map_concat comp_def)
  finally show ?case .
qed

lemma itertools_product_eq: "itertools_product pools = product_lists pools"
  by (simp add: itertools_product_def foldl_product_step_single)


lemma length_product_lists_prod:
  "length (product_lists xss) = prod_list (map length xss)"
  by (induction xss) (simp_all add: length_concat comp_def sum_list_triv)

lemma nth_concat_uniform:
  "\<forall>x\<in>set xs. length (f x) = m \<Longrightarrow> i < length xs \<Longrightarrow> j < m \<Longrightarrow>
     concat (map f xs) ! (i * m + j) = f (xs ! i) ! j"
proof (induction xs arbitrary: i)
  case Nil
  then show ?case by simp
next
  case (Cons x xs)
  show ?case
  proof (cases i)
    case 0
    with Cons.prems show ?thesis by (simp add: nth_append)
  next
    case (Suc k)
    with Cons.prems have k: "k < length xs" by simp
    have len: "length (f x) = m" using Cons.prems by simp
    have "concat (map f (x # xs)) ! (i * m + j) = (f x @ concat (map f xs)) ! (m + (k * m + j))"
      using Suc by (simp add: add.assoc)
    also have "\<dots> = concat (map f xs) ! (k * m + j)"
      using len by (simp add: nth_append)
    also have "\<dots> = f (xs ! k) ! j"
      using Cons.IH [OF _ k \<open>j < m\<close>] Cons.prems by simp
    finally show ?thesis using Suc by simp
  qed
qed

lemma odometer_rank_less:
  "valid_choice sizes idx \<Longrightarrow> odometer_rank sizes idx < prod_list sizes"
  unfolding valid_choice_def
proof (induction idx sizes rule: list_all2_induct)
  case Nil
  then show ?case by simp
next
  case (Cons i js n ns)
  have "i * prod_list ns + odometer_rank ns js < i * prod_list ns + prod_list ns"
    using Cons.IH by simp
  also have "\<dots> = Suc i * prod_list ns" by simp
  also have "\<dots> \<le> n * prod_list ns"
    using Cons.hyps(1) by (intro mult_le_mono1) simp
  finally show ?case by simp
qed

lemma product_lists_nth_rank:
  "valid_choice (map length xss) idx \<Longrightarrow>
     product_lists xss ! odometer_rank (map length xss) idx = map (\<lambda>(xs, i). xs ! i) (zip xss idx)"
proof (induction xss arbitrary: idx)
  case Nil
  then show ?case by (simp add: valid_choice_def)
next
  case (Cons xs xss)
  from Cons.prems obtain i js where idx: "idx = i # js" and i: "i < length xs"
    and js: "valid_choice (map length xss) js"
    by (auto simp: valid_choice_def list_all2_Cons2)
  let ?m = "prod_list (map length xss)"
  have r: "odometer_rank (map length xss) js < ?m"
    using js by (rule odometer_rank_less)
  have "product_lists (xs # xss) ! (i * ?m + odometer_rank (map length xss) js)
          = map (Cons (xs ! i)) (product_lists xss) ! odometer_rank (map length xss) js"
    unfolding product_lists.simps
    by (rule nth_concat_uniform) (simp_all add: length_product_lists_prod i r)
  also have "\<dots> = xs ! i # product_lists xss ! odometer_rank (map length xss) js"
    using r by (simp add: length_product_lists_prod)
  finally show ?case using Cons.IH [OF js] idx by simp
qed

lemma odometer_digits_rank:
  "valid_choice sizes idx \<Longrightarrow> odometer_digits sizes (odometer_rank sizes idx) = idx"
  unfolding valid_choice_def
proof (induction idx sizes rule: list_all2_induct)
  case Nil
  then show ?case by simp
next
  case (Cons i js n ns)
  have r: "odometer_rank ns js < prod_list ns"
    using Cons.hyps(2) by (simp add: odometer_rank_less valid_choice_def)
  then show ?case using Cons.IH by simp
qed

lemma odometer_digits_valid:
  "p < prod_list sizes \<Longrightarrow>
     valid_choice sizes (odometer_digits sizes p) \<and> odometer_rank sizes (odometer_digits sizes p) = p"
proof (induction sizes arbitrary: p)
  case Nil
  then show ?case by (simp add: valid_choice_def)
next
  case (Cons n ns)
  from Cons.prems have pos: "0 < prod_list ns"
    by (cases "prod_list ns = 0") simp_all
  have q: "p div prod_list ns < n"
    using Cons.prems pos by (simp add: less_mult_imp_div_less mult.commute)
  have "p mod prod_list ns < prod_list ns" using pos by simp
  from Cons.IH [OF this] q show ?case
    by (simp add: valid_choice_def)
qed

lemma read_design_variable_set_product_lists:
  "read_design_variable_set data = map (zip (map fst data)) (product_lists (map snd data))"
  by (simp add: read_design_variable_set_def itertools_product_eq)

lemma length_read_design_variable_set:
  "length (read_design_variable_set data) = prod_list (var_sizes data)"
  by (simp add: read_design_variable_set_product_lists length_product_lists_prod
      var_sizes_def comp_def)

lemma zip_pick:
  "length idx = length data \<Longrightarrow>
     zip (map fst data) (map (\<lambda>(xs, i). xs ! i) (zip (map snd data) idx)) = pick_record data idx"
  unfolding pick_record_def
  by (induction data idx rule: list_induct2') simp_all

lemma read_design_variable_set_nth:
  assumes "valid_choice (var_sizes data) idx"
  shows "read_design_variable_set data ! odometer_rank (var_sizes data) idx = pick_record data idx"
proof -
  have sizes: "var_sizes data = map length (map snd data)"
    by (simp add: var_sizes_def comp_def)
  have len: "length idx = length data"
    using assms by (simp add: valid_choice_def var_sizes_def list_all2_lengthD)
  have less: "odometer_rank (var_sizes data) idx < length (product_lists (map snd data))"
    using odometer_rank_less [OF assms] by (simp add: length_product_lists_prod sizes)
  have "read_design_variable_set data ! odometer_rank (var_sizes data) idx
          = zip (map fst data) (product_lists (map snd data) ! odometer_rank (var_sizes data) idx)"
    using less by (simp add: read_design_variable_set_product_lists)
  also have "\<dots> = zip (map fst data) (map (\<lambda>(xs, i). xs ! i) (zip (map snd data) idx))"
    using product_lists_nth_rank [of "map snd data" idx] assms by (simp add: sizes)
  also have "\<dots> = pick_record data idx"
    using len by (rule zip_pick)
  finally show ?thesis .
qed

lemma zip_keys_inj:
  "length ks = length a \<Longrightarrow> length ks = length b \<Longrightarrow> zip ks a = zip ks b \<Longrightarrow> a = b"
  by (metis map_snd_zip)

lemma distinct_read_design_variable_set:
  assumes "\<forall>kv\<in>set data. distinct (snd kv)"
  shows "distinct (read_design_variable_set data)"
proof -
  have "\<forall>xs\<in>set (map snd data). distinct xs"
    using assms by simp
  then have d: "distinct (product_lists (map snd data))"
    by (rule distinct_product_lists)
  have "inj_on (zip (map fst data)) (set (product_lists (map snd data)))"
  proof (rule inj_onI)
    fix a b
    assume a: "a \<in> set (product_lists (map snd data))"
      and b: "b \<in> set (product_lists (map snd data))"
      and eq: "zip (map fst data) a = zip (map fst data) b"
    have la: "length (map fst data) = length a"
      using in_set_product_lists_length [OF a] by simp
    have lb: "length (map fst data) = length b"
      using in_set_product_lists_length [OF b] by simp
    from la lb eq show "a = b" by (rule zip_keys_inj)
  qed
  with d have "distinct (map (zip (map fst data)) (product_lists (map snd data)))"
    unfolding distinct_map by (rule conjI)
  then show ?thesis
    unfolding read_design_variable_set_product_lists .
qed

text \<open>
  Claim C1. The expansion stored in \<^verbatim>\<open>param_list\<close> is the full Cartesian product in
  odometer order. Its length is the product of the value-sequence lengths. Every choice
  of one position per variable is found at its odometer rank (the last declared variable
  cycling fastest), as the record that maps each variable name to the chosen value, and
  the rank determines the choice; conversely every position of the expansion is the rank
  of exactly that valid choice which its digits spell, so choices and positions
  correspond one to one. When no value sequence repeats a value, the records are
  pairwise different as well.
\<close>

theorem read_design_variable_set_cartesian:
  "length (solve_me data) = prod_list (var_sizes data)
   \<and> (\<forall>idx. valid_choice (var_sizes data) idx \<longrightarrow>
         odometer_rank (var_sizes data) idx < length (solve_me data)
         \<and> solve_me data ! odometer_rank (var_sizes data) idx = pick_record data idx
         \<and> odometer_digits (var_sizes data) (odometer_rank (var_sizes data) idx) = idx)
   \<and> (\<forall>p. p < length (solve_me data) \<longrightarrow>
         valid_choice (var_sizes data) (odometer_digits (var_sizes data) p)
         \<and> odometer_rank (var_sizes data) (odometer_digits (var_sizes data) p) = p)
   \<and> ((\<forall>kv\<in>set data. distinct (snd kv)) \<longrightarrow> distinct (solve_me data))"
proof (intro conjI allI impI)
  show "length (solve_me data) = prod_list (var_sizes data)"
    by (simp add: solve_me_def length_read_design_variable_set)
next
  fix idx assume v: "valid_choice (var_sizes data) idx"
  show "odometer_rank (var_sizes data) idx < length (solve_me data)"
    using odometer_rank_less [OF v] by (simp add: solve_me_def length_read_design_variable_set)
  show "solve_me data ! odometer_rank (var_sizes data) idx = pick_record data idx"
    using v by (simp add: solve_me_def read_design_variable_set_nth)
  show "odometer_digits (var_sizes data) (odometer_rank (var_sizes data) idx) = idx"
    using v by (rule odometer_digits_rank)
next
  fix p assume "p < length (solve_me data)"
  then have p: "p < prod_list (var_sizes data)"
    by (simp add: solve_me_def length_read_design_variable_set)
  show "valid_choice (var_sizes data) (odometer_digits (var_sizes data) p)"
    using odometer_digits_valid [OF p] by simp
  show "odometer_rank (var_sizes data) (odometer_digits (var_sizes data) p) = p"
    using odometer_digits_valid [OF p] by simp
next
  assume "\<forall>kv\<in>set data. distinct (snd kv)"
  then show "distinct (solve_me data)"
    by (simp add: solve_me_def distinct_read_design_variable_set)
qed

theorem read_design_variable_set_cartesian_witness:
  "valid_choice (var_sizes [(''length'', [''1'', ''2'']), (''material'', [''steel'', ''alu''])]) [1, 0]
   \<and> solve_me [(''length'', [''1'', ''2'']), (''material'', [''steel'', ''alu''])] ! 2
       = [(''length'', ''2''), (''material'', ''steel'')]
   \<and> length (solve_me [(''length'', [''1'', ''2'']), (''material'', [''steel'', ''alu''])]) = 4
   \<and> odometer_digits [2, 2] 3 = [1, 1]
   \<and> distinct (solve_me [(''length'', [''1'', ''2'']), (''material'', [''steel'', ''alu''])])"
proof -
  let ?data = "[(''length'', [''1'', ''2'']), (''material'', [''steel'', ''alu''])]"
  note T = read_design_variable_set_cartesian [of ?data]
  have v: "valid_choice (var_sizes ?data) [1, 0]"
    by (simp add: valid_choice_def var_sizes_def)
  have d: "\<forall>kv\<in>set ?data. distinct (snd kv)" by simp
  have r: "odometer_rank (var_sizes ?data) [1, 0] = 2"
    by (simp add: var_sizes_def)
  have p: "pick_record ?data [1, 0] = [(''length'', ''2''), (''material'', ''steel'')]"
    by (simp add: pick_record_def)
  have s: "prod_list (var_sizes ?data) = 4"
    by (simp add: var_sizes_def)
  have g: "odometer_digits [2, 2] 3 = [1, 1]" by simp
  have len: "length (solve_me ?data) = 4"
    using T [THEN conjunct1] s by simp
  have nth: "solve_me ?data ! 2 = [(''length'', ''2''), (''material'', ''steel'')]"
    using T [THEN conjunct2, THEN conjunct1, rule_format, OF v] r p by simp
  have dist: "distinct (solve_me ?data)"
    using T [THEN conjunct2, THEN conjunct2, THEN conjunct2, THEN mp, OF d] .
  from v nth len g dist show ?thesis by (intro conjI)
qed

text \<open>
  Claim C7, as stated, says that an empty variables mapping gives an expansion of
  length 0. \<^verbatim>\<open>itertools.product()\<close> of no pools yields one empty tuple, so the
  expansion holds one record.
\<close>

theorem empty_mapping_expansion_not_empty:
  "length (solve_me ([] :: int design_vars)) \<noteq> 0"
  by (simp add: solve_me_def read_design_variable_set_def itertools_product_def)

text \<open>
  Claim C7, amended. Constructing a DesignVariableSet from an empty variables mapping
  succeeds and yields an expansion of length 1: the single empty parameter record.
\<close>

theorem empty_mapping_expansion:
  "solve_me ([] :: 'v design_vars) = [[]] \<and> length (solve_me ([] :: 'v design_vars)) = 1"
  by (simp add: solve_me_def read_design_variable_set_def itertools_product_def)

section \<open>Properties of the per-cell error metric\<close>





section \<open>Properties of the verification engine\<close>

lemma sequence_results_Inr:
  "sequence_results rs = Inr xs \<Longrightarrow> length xs = length rs \<and> (\<forall>j<length rs. rs ! j = Inr (xs ! j))"
proof (induction rs arbitrary: xs)
  case Nil
  then show ?case by simp
next
  case (Cons r rs)
  from Cons.prems obtain y ys where r: "r = Inr y" and ys: "sequence_results rs = Inr ys"
    and xs: "xs = y # ys"
    by (auto split: sum.splits)
  from Cons.IH [OF ys] show ?case
    by (auto simp: r xs nth_Cons split: nat.splits)
qed

lemma col_pos_member:
  assumes "name \<in> set cols"
  shows "col_pos cols name < length cols" and "cols ! col_pos cols name = name"
proof -
  show less: "col_pos cols name < length cols"
    unfolding col_pos_def using assms
    by (induction cols) auto
  show "cols ! col_pos cols name = name"
    using nth_length_takeWhile [of "\<lambda>c. c \<noteq> name" cols] less
    by (simp add: col_pos_def)
qed

lemma cell_at_reset_index:
  "param \<noteq> k \<Longrightarrow> cell_at (k # cols) (key # cs) param = cell_at cols cs param"
  by (simp add: cell_at_def col_pos_def Let_def)

lemma cell_at_member:
  "param \<in> set cols \<Longrightarrow> length cs = length cols \<Longrightarrow> cell_at cols cs param = cs ! col_pos cols param"
  by (simp add: cell_at_def Let_def col_pos_member)

lemma check_error_Inr:
  assumes "check_error fl lib ver k = Inr res"
  shows "k \<in> set (columns lib)" and "k \<in> set (columns ver)"
    and "\<exists>cells.
          sequence_results
            (map (check_row fl \<lparr>index_name = k, source = lib\<rparr> \<lparr>index_name = k, source = ver\<rparr>)
               (column_values lib k)) = Inr cells
          \<and> res = reset_index k (remove1 k (columns lib)) (column_values lib k) cells"
  using assms
  by (auto simp: check_error_def set_index_def try_bind_def index_keys_def data_columns_def
      split: if_splits sum.splits)

lemma result_cell:
  assumes res: "check_error fl lib ver k = Inr res"
    and r: "r < length (rows lib)"
    and param: "param \<in> set (columns lib)" "param \<noteq> k"
  shows "length (rows res) = length (rows lib)"
    and "\<exists>cs. check_row fl \<lparr>index_name = k, source = lib\<rparr> \<lparr>index_name = k, source = ver\<rparr>
               (cell_at (columns lib) (rows lib ! r) k) = Inr cs
          \<and> length cs = length (remove1 k (columns lib))
          \<and> cell_at (columns res) (rows res ! r) param = cs ! col_pos (remove1 k (columns lib)) param"
proof -
  let ?lib = "\<lparr>index_name = k, source = lib\<rparr>" and ?ver = "\<lparr>index_name = k, source = ver\<rparr>"
  let ?keys = "column_values lib k" and ?dcols = "remove1 k (columns lib)"
  from check_error_Inr(3) [OF res] obtain cells
    where seq: "sequence_results (map (check_row fl ?lib ?ver) ?keys) = Inr cells"
      and res_eq: "res = reset_index k ?dcols ?keys cells"
    by blast
  have keys_len: "length ?keys = length (rows lib)"
    by (simp add: column_values_def)
  from sequence_results_Inr [OF seq]
  have len: "length cells = length (rows lib)"
    and nth: "\<forall>j<length (rows lib). check_row fl ?lib ?ver (?keys ! j) = Inr (cells ! j)"
    by (simp_all add: keys_len)
  show "length (rows res) = length (rows lib)"
    by (simp add: res_eq reset_index_def len keys_len)
  have key_r: "?keys ! r = cell_at (columns lib) (rows lib ! r) k"
    using r by (simp add: column_values_def)
  have row_r: "check_row fl ?lib ?ver (cell_at (columns lib) (rows lib ! r) k) = Inr (cells ! r)"
    using nth [rule_format, OF r] unfolding key_r .
  have cs_len: "length (cells ! r) = length ?dcols"
  proof (cases "cell_at (columns lib) (rows lib ! r) k \<in> set (index_keys ?ver)")
    case True
    with row_r sequence_results_Inr show ?thesis
      by (fastforce simp: check_row_def data_columns_def)
  next
    case False
    with row_r have "cells ! r = map (\<lambda>param. NaN) ?dcols"
      by (simp add: check_row_def data_columns_def)
    then show ?thesis by simp
  qed
  have p: "param \<in> set ?dcols"
    using param by simp
  have "rows res ! r = ?keys ! r # cells ! r"
    using r by (simp add: res_eq reset_index_def len keys_len)
  then have "cell_at (columns res) (rows res ! r) param = cell_at ?dcols (cells ! r) param"
    using param(2) by (simp add: res_eq reset_index_def cell_at_reset_index)
  also have "\<dots> = cells ! r ! col_pos ?dcols param"
    using p cs_len by (rule cell_at_member)
  finally show "\<exists>cs. check_row fl ?lib ?ver (cell_at (columns lib) (rows lib ! r) k) = Inr cs
          \<and> length cs = length ?dcols
          \<and> cell_at (columns res) (rows res ! r) param = cs ! col_pos ?dcols param"
    using row_r cs_len by blast
qed

lemma check_row_cell:
  assumes "check_row fl lib_df verify_df i = Inr cs"
    and "param \<in> set (data_columns lib_df)"
  shows "(if i \<in> set (index_keys verify_df) \<and> param \<in> set (data_columns verify_df)
          then check_cell fl lib_df verify_df i param else Inr NaN)
         = Inr (cs ! col_pos (data_columns lib_df) param)"
proof -
  let ?j = "col_pos (data_columns lib_df) param"
  have j: "?j < length (data_columns lib_df)" "data_columns lib_df ! ?j = param"
    using assms(2) by (rule col_pos_member)+
  show ?thesis
  proof (cases "i \<in> set (index_keys verify_df)")
    case True
    with assms(1) have "sequence_results
          (map (\<lambda>param. if param \<in> set (data_columns verify_df)
                         then check_cell fl lib_df verify_df i param else Inr NaN)
             (data_columns lib_df)) = Inr cs"
      by (simp add: check_row_def)
    from sequence_results_Inr [OF this] j True show ?thesis
      by (auto simp del: sequence_results.simps)
  next
    case False
    with assms(1) j show ?thesis
      by (auto simp: check_row_def)
  qed
qed

lemma result_cell_value:
  assumes res: "check_error fl lib ver k = Inr res"
    and r: "r < length (rows lib)"
    and param: "param \<in> set (columns lib)" "param \<noteq> k"
  shows "(if cell_at (columns lib) (rows lib ! r) k \<in> set (column_values ver k)
             \<and> param \<in> set (columns ver)
          then check_cell fl \<lparr>index_name = k, source = lib\<rparr> \<lparr>index_name = k, source = ver\<rparr>
                 (cell_at (columns lib) (rows lib ! r) k) param
          else Inr NaN)
         = Inr (cell_at (columns res) (rows res ! r) param)"
proof -
  let ?lib = "\<lparr>index_name = k, source = lib\<rparr>" and ?ver = "\<lparr>index_name = k, source = ver\<rparr>"
  from result_cell(2) [OF res r param] obtain cs
    where row: "check_row fl ?lib ?ver (cell_at (columns lib) (rows lib ! r) k) = Inr cs"
      and cell: "cell_at (columns res) (rows res ! r) param = cs ! col_pos (remove1 k (columns lib)) param"
    by blast
  have p: "param \<in> set (data_columns ?lib)"
    using param by (simp add: data_columns_def)
  have v: "param \<in> set (remove1 k (columns ver)) \<longleftrightarrow> param \<in> set (columns ver)"
    using param(2) by simp
  from check_row_cell [OF row p] show ?thesis
    unfolding cell index_keys_def data_columns_def by (simp add: v)
qed

lemma error_report_Inr:
  assumes "error_report lib ver res = Inr rep"
  shows "length rep = length (columns lib)"
    and "j < length (columns lib) \<Longrightarrow> report_param lib ver res (columns lib ! j) = Inr (rep ! j)"
  using sequence_results_Inr [OF assms [unfolded error_report_def]]
  by simp_all

text \<open>
  Claim C9. In the per-cell result, which has one row per generated row, every cell of
  a data column whose row key is absent from the reference table, or whose column is
  absent from the reference table, is the missing marker (and so is not 0). In the
  per-column report, which has one row per generated column, a column absent from the
  reference table is marked \<^verbatim>\<open>"no"\<close> and its six statistic fields are the missing marker.
\<close>

theorem missing_reference_data_marked:
  "(check_error fl lib ver k = Inr res \<longrightarrow>
      length (rows res) = length (rows lib)
      \<and> (\<forall>r param.
            r < length (rows lib) \<and> param \<in> set (columns lib) \<and> param \<noteq> k
            \<and> (cell_at (columns lib) (rows lib ! r) k \<notin> set (column_values ver k)
                \<or> param \<notin> set (columns ver))
            \<longrightarrow> cell_at (columns res) (rows res ! r) param = NaN
                \<and> cell_at (columns res) (rows res ! r) param \<noteq> Num 0))
   \<and> (error_report lib ver result_df = Inr rep \<longrightarrow>
        length rep = length (columns lib)
        \<and> (\<forall>j. j < length (columns lib) \<and> columns lib ! j \<notin> set (columns ver)
              \<longrightarrow> checked (rep ! j) = ''no''
                  \<and> coverage (rep ! j) = NaN \<and> max_error (rep ! j) = NaN
                  \<and> avg_error (rep ! j) = NaN \<and> avg_abs_error (rep ! j) = NaN
                  \<and> min_error (rep ! j) = NaN \<and> str_error (rep ! j) = NaN))"
proof (intro conjI impI allI)
  assume res: "check_error fl lib ver k = Inr res"
  show "length (rows res) = length (rows lib)"
    using res by (auto simp: check_error_def set_index_def try_bind_def reset_index_def
        index_keys_def column_values_def
        dest!: sequence_results_Inr split: if_splits sum.splits)
next
  fix r param
  assume res: "check_error fl lib ver k = Inr res"
    and h: "r < length (rows lib) \<and> param \<in> set (columns lib) \<and> param \<noteq> k
            \<and> (cell_at (columns lib) (rows lib ! r) k \<notin> set (column_values ver k)
                \<or> param \<notin> set (columns ver))"
  from h have r: "r < length (rows lib)" and p: "param \<in> set (columns lib)" "param \<noteq> k"
    and miss: "cell_at (columns lib) (rows lib ! r) k \<notin> set (column_values ver k)
                \<or> param \<notin> set (columns ver)"
    by simp_all
  from result_cell_value [OF res r p] miss
  show nan: "cell_at (columns res) (rows res ! r) param = NaN"
    by auto
  show "cell_at (columns res) (rows res ! r) param \<noteq> Num 0"
    by (simp add: nan)
next
  assume rep: "error_report lib ver result_df = Inr rep"
  show "length rep = length (columns lib)"
    using rep by (rule error_report_Inr)
next
  fix j
  assume rep: "error_report lib ver result_df = Inr rep"
    and h: "j < length (columns lib) \<and> columns lib ! j \<notin> set (columns ver)"
  from h error_report_Inr(2) [OF rep, of j]
  have row: "rep ! j = not_checked_row"
    by (simp add: report_param_def)
  show "checked (rep ! j) = ''no''" "coverage (rep ! j) = NaN" "max_error (rep ! j) = NaN"
    "avg_error (rep ! j) = NaN" "avg_abs_error (rep ! j) = NaN" "min_error (rep ! j) = NaN"
    "str_error (rep ! j) = NaN"
    by (simp_all add: row not_checked_row_def)
qed

lemma plates_check_error:
  "check_error (\<lambda>s. None) plates_generated plates_reference ''name''
     = Inr \<lparr>columns = [''name'', ''grade'', ''cap''],
            rows = [[Str ''p2'', Str ''match'', NaN], [Str ''p1'', NaN, NaN]]\<rparr>"
  by code_simp

lemma plates_error_report:
  "error_report plates_generated plates_reference
       \<lparr>columns = [''name'', ''grade'', ''cap''],
        rows = [[Str ''p2'', Str ''match'', NaN], [Str ''p1'', NaN, NaN]]\<rparr>
     = Inr [\<lparr>checked = ''yes'', coverage = Num 100, max_error = Str ''N/A'',
              avg_error = Str ''N/A'', avg_abs_error = Str ''N/A'',
              min_error = Str ''N/A'', str_error = NaN\<rparr>,
            \<lparr>checked = ''yes'', coverage = Num 50, max_error = Str ''N/A'',
              avg_error = Str ''N/A'', avg_abs_error = Str ''N/A'',
              min_error = Str ''N/A'', str_error = Num 0\<rparr>,
            \<lparr>checked = ''no'', coverage = NaN, max_error = NaN, avg_error = NaN,
              avg_abs_error = NaN, min_error = NaN, str_error = NaN\<rparr>]"
  by code_simp

theorem missing_reference_data_marked_witness:
  "(\<exists>res. check_error (\<lambda>s. None) plates_generated plates_reference ''name'' = Inr res
      \<and> cell_at (columns res) (rows res ! 1) ''grade'' = NaN
      \<and> cell_at (columns res) (rows res ! 0) ''cap'' = NaN)
   \<and> (\<exists>rep. error_report plates_generated plates_reference
                \<lparr>columns = [''name'', ''grade'', ''cap''],
                 rows = [[Str ''p2'', Str ''match'', NaN], [Str ''p1'', NaN, NaN]]\<rparr> = Inr rep
         \<and> length rep = 3 \<and> checked (rep ! 2) = ''no'' \<and> max_error (rep ! 2) = NaN)"
proof -
  let ?res = "\<lparr>columns = [''name'', ''grade'', ''cap''],
               rows = [[Str ''p2'', Str ''match'', NaN], [Str ''p1'', NaN, NaN]]\<rparr>"
  obtain rep where rep: "error_report plates_generated plates_reference ?res = Inr rep"
    using plates_error_report by blast
  note T = missing_reference_data_marked
    [of "\<lambda>s. None" plates_generated plates_reference "''name''" ?res ?res rep]
  note cells = T [THEN conjunct1, THEN mp, OF plates_check_error, THEN conjunct2, rule_format]
  note report = T [THEN conjunct2, THEN mp, OF rep]
  have a: "cell_at (columns ?res) (rows ?res ! 1) ''grade'' = NaN"
    by (rule cells [of 1 "''grade''", THEN conjunct1])
      (simp add: plates_generated_def plates_reference_def cell_at_def col_pos_def
        column_values_def)
  have b: "cell_at (columns ?res) (rows ?res ! 0) ''cap'' = NaN"
    by (rule cells [of 0 "''cap''", THEN conjunct1])
      (simp add: plates_generated_def plates_reference_def cell_at_def col_pos_def
        column_values_def)
  have c: "length rep = 3"
    using report [THEN conjunct1] by (simp add: plates_generated_def)
  have d: "checked (rep ! 2) = ''no'' \<and> max_error (rep ! 2) = NaN"
    using report [THEN conjunct2, rule_format, of 2]
    by (simp add: plates_generated_def plates_reference_def)
  from plates_check_error a b rep c d show ?thesis
    by blast
qed













section \<open>Properties of object set generation\<close>

lemma read_attrs_ok:
  "list_all (hasattr inst) attrs \<Longrightarrow>
     \<exists>vals. read_attrs attrs inst = Inr vals \<and> length vals = length attrs"
proof (induction attrs)
  case Nil
  then show ?case by (simp add: read_attrs_def)
next
  case (Cons a attrs)
  then obtain vals where "read_attrs attrs inst = Inr vals" "length vals = length attrs"
    by auto
  moreover from Cons.prems obtain v where "map_of inst a = Some v"
    by (auto simp: hasattr_def)
  ultimately show ?case
    using Cons.prems by (simp add: read_attrs_def)
qed

lemma read_attrs_fail:
  "\<not> list_all (hasattr inst) attrs \<Longrightarrow> \<exists>e. read_attrs attrs inst = Inl e"
proof (induction attrs)
  case Nil
  then show ?case by simp
next
  case (Cons a attrs)
  show ?case
  proof (cases "hasattr inst a")
    case True
    with Cons obtain e where "read_attrs attrs inst = Inl e" by auto
    with True show ?thesis
      by (auto simp: read_attrs_def hasattr_def)
  next
    case False
    then show ?thesis by (simp add: read_attrs_def)
  qed
qed

lemma try_record_skipped:
  assumes "columns df = attrs" and "record_skipped ref_class attrs p"
  shows "\<exists>objs'. try_record ref_class i p (objs, df, sk) = (objs', df, sk @ [i])"
proof (cases "ref_class p")
  case (Inl e)
  then show ?thesis by (simp add: try_record_def)
next
  case (Inr inst)
  with assms(2) have bad: "attrs = [] \<or> \<not> list_all (hasattr inst) attrs"
    by (simp add: record_skipped_def)
  have "\<exists>e. try_bind (read_attrs (columns df) inst) (loc_append df) = Inl e"
  proof (cases "list_all (hasattr inst) attrs")
    case True
    with bad have "attrs = []" by simp
    with assms(1) show ?thesis
      by (simp add: read_attrs_def try_bind_def loc_append_def)
  next
    case False
    from read_attrs_fail [OF this] assms(1) show ?thesis
      by (auto simp: try_bind_def)
  qed
  with Inr show ?thesis by (auto simp: try_record_def)
qed

lemma try_record_kept:
  assumes "columns df = attrs" and "\<not> record_skipped ref_class attrs p"
  shows "\<exists>inst vals. ref_class p = Inr inst \<and> length vals = length attrs
           \<and> try_record ref_class i p (objs, df, sk)
               = (objs @ [inst], df\<lparr>rows := rows df @ [vals]\<rparr>, sk)"
proof -
  from assms(2) obtain inst where inst: "ref_class p = Inr inst"
    and ok: "attrs \<noteq> []" "list_all (hasattr inst) attrs"
    by (auto simp: record_skipped_def split: sum.splits)
  from read_attrs_ok [OF ok(2)] obtain vals
    where vals: "read_attrs attrs inst = Inr vals" "length vals = length attrs"
    by blast
  have "try_bind (read_attrs (columns df) inst) (loc_append df)
          = Inr (df\<lparr>rows := rows df @ [vals]\<rparr>)"
    using vals ok(1) assms(1) by (simp add: try_bind_def loc_append_def)
  with inst have "try_record ref_class i p (objs, df, sk)
               = (objs @ [inst], df\<lparr>rows := rows df @ [vals]\<rparr>, sk)"
    by (simp add: try_record_def)
  with inst vals(2) show ?thesis
    by blast
qed

lemma upt_filter_Cons:
  "filter (\<lambda>j. Q ((p # ps) ! j)) [0..<Suc (length ps)]
     = (if Q p then [0] else []) @ map Suc (filter (\<lambda>j. Q (ps ! j)) [0..<length ps])"
proof -
  have "[0..<Suc (length ps)] = 0 # map Suc [0..<length ps]"
    by (simp add: upt_conv_Cons map_Suc_upt del: upt_Suc)
  then show ?thesis
    by (simp add: filter_map comp_def del: upt_Suc)
qed

lemma generate_loop_result:
  assumes "columns df = attrs"
  shows "\<exists>objs' df'.
           generate_loop ref_class i ps (objs, df, sk)
             = (objs', df',
                sk @ map ((+) i) (filter (\<lambda>j. record_skipped ref_class attrs (ps ! j)) [0..<length ps]))
           \<and> columns df' = attrs
           \<and> length (rows df')
               = length (rows df) + length (filter (\<lambda>p. \<not> record_skipped ref_class attrs p) ps)
           \<and> length objs'
               = length objs + length (filter (\<lambda>p. \<not> isl (ref_class p)) ps)"
  using assms
proof (induction ps arbitrary: i objs df sk)
  case Nil
  then show ?case by simp
next
  case (Cons p ps)
  let ?Q = "record_skipped ref_class attrs"
  show ?case
  proof (cases "?Q p")
    case True
    from try_record_skipped [OF Cons.prems True] obtain objs1
      where step: "try_record ref_class i p (objs, df, sk) = (objs1, df, sk @ [i])"
      by blast
    have objs1: "length objs1 = length objs + (if isl (ref_class p) then 0 else 1)"
      using step by (auto simp: try_record_def split: sum.splits)
    from Cons.IH [OF Cons.prems, of "Suc i" objs1 "sk @ [i]"] obtain objs' df'
      where loop: "generate_loop ref_class (Suc i) ps (objs1, df, sk @ [i])
             = (objs', df', (sk @ [i]) @ map ((+) (Suc i)) (filter (\<lambda>j. ?Q (ps ! j)) [0..<length ps]))"
        and rest: "columns df' = attrs"
          "length (rows df') = length (rows df) + length (filter (\<lambda>p. \<not> ?Q p) ps)"
          "length objs' = length objs1 + length (filter (\<lambda>p. \<not> isl (ref_class p)) ps)"
      by blast
    have "generate_loop ref_class i (p # ps) (objs, df, sk)
            = (objs', df', sk @ map ((+) i) (filter (\<lambda>j. ?Q ((p # ps) ! j)) [0..<length (p # ps)]))"
      using True by (simp add: step loop upt_filter_Cons comp_def del: upt_Suc)
    with rest objs1 True show ?thesis
      by (auto simp del: upt_Suc)
  next
    case False
    from try_record_kept [OF Cons.prems False] obtain inst vals
      where inst: "ref_class p = Inr inst"
        and step: "try_record ref_class i p (objs, df, sk)
                     = (objs @ [inst], df\<lparr>rows := rows df @ [vals]\<rparr>, sk)"
      by blast
    have cols: "columns (df\<lparr>rows := rows df @ [vals]\<rparr>) = attrs"
      using Cons.prems by simp
    from Cons.IH [OF cols, of "Suc i" "objs @ [inst]" sk] obtain objs' df'
      where loop: "generate_loop ref_class (Suc i) ps (objs @ [inst], df\<lparr>rows := rows df @ [vals]\<rparr>, sk)
             = (objs', df', sk @ map ((+) (Suc i)) (filter (\<lambda>j. ?Q (ps ! j)) [0..<length ps]))"
        and rest: "columns df' = attrs"
          "length (rows df') = length (rows (df\<lparr>rows := rows df @ [vals]\<rparr>))
             + length (filter (\<lambda>p. \<not> ?Q p) ps)"
          "length objs' = length (objs @ [inst]) + length (filter (\<lambda>p. \<not> isl (ref_class p)) ps)"
      by blast
    have "generate_loop ref_class i (p # ps) (objs, df, sk)
            = (objs', df', sk @ map ((+) i) (filter (\<lambda>j. ?Q ((p # ps) ! j)) [0..<length (p # ps)]))"
      using False by (simp add: step loop upt_filter_Cons comp_def del: upt_Suc)
    with rest inst False show ?thesis
      by (auto simp del: upt_Suc)
  qed
qed

lemma length_filter_upt_nth:
  "length (filter (\<lambda>j. Q (ps ! j)) [0..<length ps]) = length (filter Q ps)"
proof -
  have "length (filter (\<lambda>j. Q (ps ! j)) [0..<length ps])
          = card {i. i < length ps \<and> Q (ps ! ([0..<length ps] ! i))}"
    by (simp add: length_filter_conv_card)
  also have "\<dots> = card {i. i < length ps \<and> Q (ps ! i)}"
    by (rule arg_cong [where f = card]) auto
  also have "\<dots> = length (filter Q ps)"
    by (simp add: length_filter_conv_card)
  finally show ?thesis .
qed

lemma generate_object_set_no_weights:
  assumes "value_fn self = None"
  shows "\<exists>obj_set df.
           generate_object_set self
             = (filter (\<lambda>j. record_skipped (reference_class self) (report_attrs self)
                              (param_list self ! j)) [0..<length (param_list self)],
                Inr (obj_set, df))
           \<and> columns df = report_attrs self
           \<and> length (rows df)
               = length (filter (\<lambda>p. \<not> record_skipped (reference_class self) (report_attrs self) p)
                           (param_list self))
           \<and> length obj_set
               = length (filter (\<lambda>p. \<not> isl (reference_class self p)) (param_list self))"
proof -
  have cols: "columns \<lparr>columns = report_attrs self, rows = []\<rparr> = report_attrs self"
    by simp
  from generate_loop_result [OF cols, of "reference_class self" 0 "param_list self" "[]" "[]"]
  obtain objs' df' where
    loop: "generate_loop (reference_class self) 0 (param_list self)
             ([], \<lparr>columns = report_attrs self, rows = []\<rparr>, [])
           = (objs', df',
              [] @ map ((+) 0)
                (filter (\<lambda>j. record_skipped (reference_class self) (report_attrs self)
                                (param_list self ! j)) [0..<length (param_list self)]))"
    and rest: "columns df' = report_attrs self"
      "length (rows df') = length (rows \<lparr>columns = report_attrs self, rows = []\<rparr>)
         + length (filter (\<lambda>p. \<not> record_skipped (reference_class self) (report_attrs self) p)
                     (param_list self))"
      "length objs' = length ([] :: pyobj list)
         + length (filter (\<lambda>p. \<not> isl (reference_class self p)) (param_list self))"
    by blast
  have "generate_object_set self
          = (filter (\<lambda>j. record_skipped (reference_class self) (report_attrs self)
                           (param_list self ! j)) [0..<length (param_list self)],
             Inr (objs', df'))"
  proof -
    have id: "map ((+) (0::nat)) xs = xs" for xs
      by (induction xs) simp_all
    show ?thesis
      unfolding generate_object_set_def loop using assms by (simp add: id)
  qed
  with rest show ?thesis by simp
qed

text \<open>
  Claim C2, as stated, has no condition on the report attributes or on the weight
  list. With no report attribute the frame has no columns and refuses every row, so a
  record whose factory call succeeded is skipped all the same; and with a weight list
  of one weight per parameter record, a single skipped record makes the final column
  assignment raise ValueError to the caller.
\<close>

theorem skip_accounting_needs_columns:
  "\<not> isl (bare_class [(''span'', Num 3)])
   \<and> generate_object_set
        \<lparr>reference_class = bare_class, param_list = [[(''span'', Num 3)]],
         report_attrs = [], value_fn = None, object_set = [],
         object_library = \<lparr>columns = [], rows = []\<rparr>, skipped_indices = []\<rparr>
       = ([0], Inr ([[(''span'', Num 3)]], \<lparr>columns = [], rows = []\<rparr>))
   \<and> generate_object_set
        \<lparr>reference_class = beam_class,
         param_list = [[(''span'', Num 0)], [(''span'', Num 2)]],
         report_attrs = [''span'', ''area''], value_fn = Some [Num 1, Num (1 / 2)],
         object_set = [], object_library = \<lparr>columns = [], rows = []\<rparr>,
         skipped_indices = []\<rparr>
       = ([0], Inl ValueError)"
  by code_simp

text \<open>
  Claim C2, amended. When at least one report attribute is declared and no weight list
  is attached, for every sequence of N parameter records and every factory such that
  exactly K of the N factory calls raise and every instance has all the report
  attributes: \<^verbatim>\<open>generate_object_set\<close> returns without raising, the table has exactly
  N - K rows under the report attributes, \<^verbatim>\<open>skipped_indices\<close> has exactly K entries,
  the skipped indices are exactly the zero-based indices whose factory call raised, and
  the object list is as long as the table.
\<close>

theorem generate_object_set_skip_accounting:
  "report_attrs self \<noteq> [] \<and> value_fn self = None
   \<and> (\<forall>p\<in>set (param_list self). \<forall>inst.
          reference_class self p = Inr inst \<longrightarrow> list_all (hasattr inst) (report_attrs self))
   \<longrightarrow> (\<exists>skipped obj_set df.
          generate_object_set self = (skipped, Inr (obj_set, df))
          \<and> columns df = report_attrs self
          \<and> length (rows df)
               = length (param_list self)
                 - length (filter (\<lambda>p. isl (reference_class self p)) (param_list self))
          \<and> length skipped
               = length (filter (\<lambda>p. isl (reference_class self p)) (param_list self))
          \<and> set skipped
               = {j. j < length (param_list self) \<and> isl (reference_class self (param_list self ! j))}
          \<and> length obj_set = length (rows df))"
proof
  assume h: "report_attrs self \<noteq> [] \<and> value_fn self = None
   \<and> (\<forall>p\<in>set (param_list self). \<forall>inst.
          reference_class self p = Inr inst \<longrightarrow> list_all (hasattr inst) (report_attrs self))"
  let ?rc = "reference_class self" and ?attrs = "report_attrs self" and ?ps = "param_list self"
  let ?Q = "record_skipped ?rc ?attrs"
  have Q: "?Q p \<longleftrightarrow> isl (?rc p)" if "p \<in> set ?ps" for p
    using h that by (cases "?rc p") (auto simp: record_skipped_def)
  have fQ: "filter ?Q ?ps = filter (\<lambda>p. isl (?rc p)) ?ps"
    by (rule filter_cong) (simp_all add: Q)
  have fnQ: "filter (\<lambda>p. \<not> ?Q p) ?ps = filter (\<lambda>p. \<not> isl (?rc p)) ?ps"
    by (rule filter_cong) (simp_all add: Q)
  have fidx: "filter (\<lambda>j. ?Q (?ps ! j)) [0..<length ?ps]
                = filter (\<lambda>j. isl (?rc (?ps ! j))) [0..<length ?ps]"
    by (rule filter_cong) (simp_all add: Q)
  from h generate_object_set_no_weights [of self] obtain obj_set df where
    gen: "generate_object_set self
            = (filter (\<lambda>j. ?Q (?ps ! j)) [0..<length ?ps], Inr (obj_set, df))"
    and cols: "columns df = ?attrs"
    and nrows: "length (rows df) = length (filter (\<lambda>p. \<not> ?Q p) ?ps)"
    and nobjs: "length obj_set = length (filter (\<lambda>p. \<not> isl (?rc p)) ?ps)"
    by blast
  let ?skipped = "filter (\<lambda>j. isl (?rc (?ps ! j))) [0..<length ?ps]"
  have compl: "length (filter (\<lambda>p. \<not> isl (?rc p)) ?ps)
                 = length ?ps - length (filter (\<lambda>p. isl (?rc p)) ?ps)"
    using sum_length_filter_compl [of "\<lambda>p. isl (?rc p)" ?ps] by simp
  have 1: "generate_object_set self = (?skipped, Inr (obj_set, df))"
    using gen by (simp add: fidx)
  have 2: "length (rows df) = length ?ps - length (filter (\<lambda>p. isl (?rc p)) ?ps)"
    using nrows by (simp add: fnQ compl)
  have 3: "length ?skipped = length (filter (\<lambda>p. isl (?rc p)) ?ps)"
    by (rule length_filter_upt_nth)
  have 4: "set ?skipped = {j. j < length ?ps \<and> isl (?rc (?ps ! j))}"
    by auto
  have 5: "length obj_set = length (rows df)"
    using nobjs nrows by (simp add: fnQ)
  from 1 cols 2 3 4 5
  show "\<exists>skipped obj_set df.
          generate_object_set self = (skipped, Inr (obj_set, df))
          \<and> columns df = ?attrs
          \<and> length (rows df) = length ?ps - length (filter (\<lambda>p. isl (?rc p)) ?ps)
          \<and> length skipped = length (filter (\<lambda>p. isl (?rc p)) ?ps)
          \<and> set skipped = {j. j < length ?ps \<and> isl (?rc (?ps ! j))}
          \<and> length obj_set = length (rows df)"
    by blast
qed

theorem generate_object_set_skip_accounting_witness:
  "\<exists>skipped obj_set df.
     generate_object_set
       \<lparr>reference_class = beam_class,
        param_list = [[(''span'', Num 0)], [(''span'', Num 2)], [(''span'', Num 3)]],
        report_attrs = [''span'', ''area''], value_fn = None,
        object_set = [], object_library = \<lparr>columns = [], rows = []\<rparr>,
        skipped_indices = []\<rparr>
       = (skipped, Inr (obj_set, df))
     \<and> length (rows df) = 2 \<and> length skipped = 1 \<and> set skipped = {0} \<and> length obj_set = 2"
proof -
  let ?self = "\<lparr>reference_class = beam_class,
        param_list = [[(''span'', Num 0)], [(''span'', Num 2)], [(''span'', Num 3)]],
        report_attrs = [''span'', ''area''], value_fn = None,
        object_set = [], object_library = \<lparr>columns = [], rows = []\<rparr>,
        skipped_indices = []\<rparr>"
  have attrs: "list_all (hasattr inst) [''span'', ''area'']" if "beam_class p = Inr inst" for p inst
    using that
    by (auto simp: beam_class_def hasattr_def split: option.splits cell.splits if_splits)
  have h: "report_attrs ?self \<noteq> [] \<and> value_fn ?self = None
     \<and> (\<forall>p\<in>set (param_list ?self). \<forall>inst.
          reference_class ?self p = Inr inst \<longrightarrow> list_all (hasattr inst) (report_attrs ?self))"
    using attrs by simp
  have K: "length (filter (\<lambda>p. isl (reference_class ?self p)) (param_list ?self)) = 1"
    by (simp add: beam_class_def)
  have ev: "generate_object_set ?self
              = ([0], Inr ([[(''span'', Num 2), (''area'', Num 4)], [(''span'', Num 3), (''area'', Num 9)]],
                           \<lparr>columns = [''span'', ''area''], rows = [[Num 2, Num 4], [Num 3, Num 9]]\<rparr>))"
    by code_simp
  from generate_object_set_skip_accounting [of ?self, THEN mp, OF h]
  obtain skipped obj_set df where
    gen: "generate_object_set ?self = (skipped, Inr (obj_set, df))"
    and n: "length (rows df) = length (param_list ?self)
        - length (filter (\<lambda>p. isl (reference_class ?self p)) (param_list ?self))"
    and k: "length skipped = length (filter (\<lambda>p. isl (reference_class ?self p)) (param_list ?self))"
    and o: "length obj_set = length (rows df)"
    by blast
  from gen ev have sk: "skipped = [0]" by simp
  have "length (rows df) = 2" using n unfolding K by simp
  moreover have "length skipped = 1" using k unfolding K .
  moreover have "set skipped = {0}" using sk by simp
  moreover have "length obj_set = 2" using o n unfolding K by simp
  ultimately show ?thesis using gen by blast
qed


text \<open>
  Claim C4 at a record whose factory call succeeds and whose instance lacks a report
  attribute: the index is recorded as skipped and the table gets no row, but the
  instance, appended before the attributes are read, stays in the object list.
\<close>

theorem projection_failure_keeps_object:
  "generate_object_set
     \<lparr>reference_class = bare_class, param_list = [[(''span'', Num 3)]],
      report_attrs = [''span'', ''area''], value_fn = None, object_set = [],
      object_library = \<lparr>columns = [], rows = []\<rparr>, skipped_indices = []\<rparr>
   = ([0], Inr ([[(''span'', Num 3)]], \<lparr>columns = [''span'', ''area''], rows = []\<rparr>))"
  by code_simp

text \<open>
  Claim C6 at three parameter records with one weight each, the second record failing
  in the factory: the table has two rows, the weight list three entries, and the column
  assignment raises ValueError out of \<^verbatim>\<open>generate_object_set\<close>.
\<close>

theorem weights_after_skip_raise:
  "generate_object_set
     \<lparr>reference_class = beam_class,
      param_list = [[(''span'', Num 1)], [(''span'', Num 0)], [(''span'', Num 2)]],
      report_attrs = [''span'', ''area''],
      value_fn = Some [Num 1, Num (2 / 3), Num (1 / 3)], object_set = [],
      object_library = \<lparr>columns = [], rows = []\<rparr>, skipped_indices = []\<rparr>
   = ([1], Inl ValueError)"
  by code_simp

lemma beam_set_generated:
  "generate_object_set
     \<lparr>reference_class = beam_class,
      param_list = [[(''span'', Num 0)], [(''span'', Num 2)]],
      report_attrs = [''span'', ''area''], value_fn = None, object_set = objs,
      object_library = lib, skipped_indices = sk\<rparr>
   = ([0], Inr ([[(''span'', Num 2), (''area'', Num 4)]],
                \<lparr>columns = [''span'', ''area''], rows = [[Num 2, Num 4]]\<rparr>))"
  by (simp add: generate_object_set_def try_record_def beam_class_def read_attrs_def
      hasattr_def try_bind_def loc_append_def)

lemma beam_set_regenerated:
  "generate_object_set
     \<lparr>reference_class = beam_class,
      param_list = [[(''span'', Num 2)]],
      report_attrs = [''span'', ''area''], value_fn = None, object_set = objs,
      object_library = lib, skipped_indices = sk\<rparr>
   = ([], Inr ([[(''span'', Num 2), (''area'', Num 4)]],
               \<lparr>columns = [''span'', ''area''], rows = [[Num 2, Num 4]]\<rparr>))"
  by (simp add: generate_object_set_def try_record_def beam_class_def read_attrs_def
      hasattr_def try_bind_def loc_append_def)

text \<open>
  Claim C5 at two parameter records, the first failing in the factory. The table has
  one row, at label 0, for the record at input position 1. A query that holds for this
  row deletes \<^verbatim>\<open>param_list[0]\<close>, the skipped record: the record of the matching row
  stays in the parameter list, and its row is in the regenerated table again.
\<close>

theorem reduce_after_skip_deletes_other_record:
  "\<exists>s0 s1.
     new_ObjectSet beam_class [[(''span'', Num 0)], [(''span'', Num 2)]] [''span'', ''area''] None
       = Inr s0
     \<and> param_list s0 = [[(''span'', Num 0)], [(''span'', Num 2)]]
     \<and> skipped_indices s0 = [0]
     \<and> object_library s0 = \<lparr>columns = [''span'', ''area''], rows = [[Num 2, Num 4]]\<rparr>
     \<and> query_index area_is_positive (object_library s0) = [0]
     \<and> reduce_design_space s0 area_is_positive = Inr s1
     \<and> param_list s1 = [[(''span'', Num 2)]]
     \<and> object_library s1 = \<lparr>columns = [''span'', ''area''], rows = [[Num 2, Num 4]]\<rparr>"
proof -
  let ?lib = "\<lparr>columns = [''span'', ''area''], rows = [[Num 2, Num 4]]\<rparr>"
  let ?objs = "[[(''span'', Num 2), (''area'', Num 4)]]"
  let ?s0 = "\<lparr>reference_class = beam_class,
              param_list = [[(''span'', Num 0)], [(''span'', Num 2)]],
              report_attrs = [''span'', ''area''], value_fn = None, object_set = ?objs,
              object_library = ?lib, skipped_indices = [0]\<rparr>"
  let ?s1 = "\<lparr>reference_class = beam_class,
              param_list = [[(''span'', Num 2)]],
              report_attrs = [''span'', ''area''], value_fn = None, object_set = ?objs,
              object_library = ?lib, skipped_indices = []\<rparr>"
  have new: "new_ObjectSet beam_class [[(''span'', Num 0)], [(''span'', Num 2)]]
               [''span'', ''area''] None = Inr ?s0"
    by (simp add: new_ObjectSet_def regenerate_def beam_set_generated try_bind_def)
  have q: "query_index area_is_positive ?lib = [0]"
    by (simp add: query_index_def area_is_positive_def cell_at_def col_pos_def)
  have red: "reduce_design_space ?s0 area_is_positive = Inr ?s1"
    by (simp add: reduce_design_space_def q py_del_def try_bind_def regenerate_def
        beam_set_regenerated)
  from new q red show ?thesis
    by (intro exI [of _ ?s0] exI [of _ ?s1]) simp
qed

end
